theory Spec2Isabelle
  imports Main "HOL-Library.AList"
begin

section \<open>Python string operations used by the tool\<close>

text \<open>
  A Python \<open>str\<close> is modelled as a \<open>string\<close>, one \<open>char\<close> per code point below 256.
  The functions below are the \<open>str\<close> methods that \<open>src/main.py\<close> calls, with the
  receiver as first argument: \<open>s.startswith(p)\<close>, \<open>sub in s\<close>, \<open>s.replace(old, new)\<close>,
  \<open>s.split(sep)\<close>, \<open>sep.join(xs)\<close>, \<open>s.strip()\<close> and \<open>s.lower()\<close>.
\<close>

definition startswith :: "string \<Rightarrow> string \<Rightarrow> bool" where
  "startswith s p = (take (length p) s = p)"

text \<open>\<open>sub in s\<close>: some suffix of \<open>s\<close> starts with \<open>sub\<close>.\<close>

fun contains :: "string \<Rightarrow> string \<Rightarrow> bool" where
  "contains [] sub = (sub = [])"
| "contains (c # cs) sub = (startswith (c # cs) sub \<or> contains cs sub)"

text \<open>
  \<open>s.replace(old, new)\<close> scans from the left and replaces non-overlapping occurrences.
  With an empty \<open>old\<close> Python inserts \<open>new\<close> before every character and at the end.
\<close>

function replace :: "string \<Rightarrow> string \<Rightarrow> string \<Rightarrow> string" where
  "replace [] old new = (if old = [] then new else [])"
| "replace (c # cs) old new =
     (if old = [] then new @ c # replace cs old new
      else if startswith (c # cs) old
        then new @ replace (drop (length old) (c # cs)) old new
      else c # replace cs old new)"
  by pat_completeness auto
termination
  by (relation "measure (\<lambda>(s, old, new). length s)") auto

text \<open>
  \<open>s.split(sep)\<close> for a non-empty separator (the program only passes the literals
  \<open>'\n'\<close>, \<open>'=='\<close> and \<open>'---'\<close>). The result is never the empty list.
\<close>

function split :: "string \<Rightarrow> string \<Rightarrow> string list" where
  "split [] sep = [[]]"
| "split (c # cs) sep =
     (if sep \<noteq> [] \<and> startswith (c # cs) sep
        then [] # split (drop (length sep) (c # cs)) sep
      else (case split cs sep of [] \<Rightarrow> [[c]] | w # ws \<Rightarrow> (c # w) # ws))"
  by pat_completeness auto
termination
  by (relation "measure (\<lambda>(s, sep). length s)") auto

fun join :: "string \<Rightarrow> string list \<Rightarrow> string" where
  "join sep [] = []"
| "join sep [x] = x"
| "join sep (x # y # ys) = x @ sep @ join sep (y # ys)"

text \<open>
  \<open>str.isspace\<close> on the code points below 256: tab, line feed, vertical tab, form feed,
  carriage return, the four separators 28 to 31, space, NEL (133) and the no-break
  space (160).
\<close>

definition is_space :: "char \<Rightarrow> bool" where
  "is_space c =
     (let n = (of_char c :: nat)
      in (9 \<le> n \<and> n \<le> 13) \<or> (28 \<le> n \<and> n \<le> 32) \<or> n = 133 \<or> n = 160)"

definition strip :: "string \<Rightarrow> string" where
  "strip s = rev (dropWhile is_space (rev (dropWhile is_space s)))"

text \<open>
  \<open>str.lower\<close> on the code points below 256: the letters A to Z and the Latin-1 capitals
  192 to 222 (without the multiplication sign 215) move up by 32.
\<close>

definition lower_char :: "char \<Rightarrow> char" where
  "lower_char c =
     (let n = (of_char c :: nat)
      in if (65 \<le> n \<and> n \<le> 90) \<or> (192 \<le> n \<and> n \<le> 222 \<and> n \<noteq> 215)
         then char_of (n + 32) else c)"

definition lower :: "string \<Rightarrow> string" where
  "lower s = map lower_char s"

abbreviation nl :: string where
  "nl \<equiv> [CHR ''\<newline>'']"

section \<open>Response clean-up\<close>

subsection \<open>\<open>_clean_dockerfile_response\<close>\<close>

text \<open>
  The loop of lines 286 to 290: \<open>lines\<close> is the list built so far, the second argument
  is what is left of \<open>response.split('\n')\<close>.
\<close>

fun dockerfile_loop :: "string list \<Rightarrow> string list \<Rightarrow> string list" where
  "dockerfile_loop lines [] = lines"
| "dockerfile_loop lines (raw # rest) =
     (let line = strip raw
      in if line \<noteq> [] \<and> \<not> startswith line ''Here'' \<and> \<not> startswith line ''This''
         then dockerfile_loop (lines @ [line]) rest
         else dockerfile_loop lines rest)"

definition clean_dockerfile_response :: "string \<Rightarrow> string" where
  "clean_dockerfile_response response =
     (let response1 =
        replace (replace (replace response ''```dockerfile'' []) ''```'' []) ''```docker'' []
      in join nl (dockerfile_loop [] (split response1 nl)))"

subsection \<open>\<open>_clean_k8s_response\<close>\<close>

text \<open>
  The loop of lines 304 to 311 with its two variables \<open>yaml_started\<close> and
  \<open>cleaned_lines\<close>.
\<close>

fun k8s_loop :: "bool \<Rightarrow> string list \<Rightarrow> string list \<Rightarrow> string list" where
  "k8s_loop yaml_started cleaned_lines [] = cleaned_lines"
| "k8s_loop yaml_started cleaned_lines (line # rest) =
     (if \<not> yaml_started then
        (if startswith (strip line) ''apiVersion:'' \<or> startswith (strip line) ''---''
         then k8s_loop True (cleaned_lines @ [line]) rest
         else k8s_loop yaml_started cleaned_lines rest)
      else k8s_loop yaml_started (cleaned_lines @ [line]) rest)"

definition clean_k8s_response :: "string \<Rightarrow> string" where
  "clean_k8s_response response =
     (let response1 = replace (replace (replace response ''```yaml'' []) ''```yml'' []) ''```'' []
      in join nl (k8s_loop False [] (split response1 nl)))"


text \<open>Names for the text after line 297 and for the test of line 307.\<close>

definition k8s_unfenced :: "string \<Rightarrow> string" where
  "k8s_unfenced response =
     replace (replace (replace response ''```yaml'' []) ''```yml'' []) ''```'' []"

definition yaml_start :: "string \<Rightarrow> bool" where
  "yaml_start line =
     (startswith (strip line) ''apiVersion:'' \<or> startswith (strip line) ''---'')"

text \<open>The test of line 289 on an already trimmed line.\<close>

definition filler_line :: "string \<Rightarrow> bool" where
  "filler_line line = (startswith line ''Here'' \<or> startswith line ''This'')"

section \<open>Splitting the manifests\<close>

text \<open>Modelled from the spec: a fragment of the \<open>ManifestSplitter\<close> of section 4.4 (content,
  resource-kind label, ordinal index). The program has no splitter: its only trace,
  lines 394 to 411 of \<open>main\<close>, is commented out and never runs.
\<close>

record fragment =
  content :: string
  kind :: string
  ordinal :: nat

text \<open>Modelled from the spec: the single left-to-right pass of the \<open>ManifestSplitter\<close> of
  section 4.4, missing from the running code. Candidates that are blank after trimming
  are discarded; every surviving one is classified and gets the next ordinal. The spec
  does not list the resource-kind labels, so the classifier is a parameter.
\<close>

fun splitter_pass :: "(string \<Rightarrow> string) \<Rightarrow> nat \<Rightarrow> string list \<Rightarrow> fragment list" where
  "splitter_pass classify next_ordinal [] = []"
| "splitter_pass classify next_ordinal (candidate # rest) =
     (if strip candidate = [] then splitter_pass classify next_ordinal rest
      else \<lparr>content = candidate, kind = classify candidate, ordinal = next_ordinal\<rparr>
             # splitter_pass classify (Suc next_ordinal) rest)"

text \<open>Modelled from the spec: the \<open>ManifestSplitter\<close> of section 4.4, missing from the running
  code. The text is split at the multi-document separator token \<open>---\<close> and the pass
  starts at ordinal 0.
\<close>

definition manifest_splitter :: "(string \<Rightarrow> string) \<Rightarrow> string \<Rightarrow> fragment list" where
  "manifest_splitter classify text = splitter_pass classify 0 (split text ''---'')"

section \<open>Repository analysis\<close>

text \<open>
  The value \<open>json.load\<close> returns. An object holds the items of the parsed \<open>dict\<close> in
  insertion order; a float is kept as the literal read, the analysis never looks at it.
\<close>

datatype json =
    JNull
  | JBool bool
  | JInt int
  | JFloat string
  | JString string
  | JArray "json list"
  | JObject "(string \<times> json) list"

text \<open>\<open>d.get(key, default)\<close> on a \<open>dict\<close>.\<close>

definition dict_get :: "('k \<times> 'v) list \<Rightarrow> 'k \<Rightarrow> 'v \<Rightarrow> 'v" where
  "dict_get d key fallback = (case map_of d key of None \<Rightarrow> fallback | Some v \<Rightarrow> v)"

text \<open>
  \<open>Path.exists()\<close> calls \<open>os.stat\<close>. It answers \<open>True\<close>, it answers \<open>False\<close> when there is
  no such file (\<open>stat\<close> fails with ENOENT, ENOTDIR, EBADF or ELOOP), and it re-raises every
  other \<open>OSError\<close>. Two of those are modelled: permission denied (a \<open>PermissionError\<close>, for
  instance on the entries of a directory without search permission) and a name too long
  for the file system.
\<close>

datatype os_failure = EACCES | ENAMETOOLONG

datatype error = FileNotFoundError | OSError os_failure

text \<open>
  What \<open>analyze_repository\<close> reads of the file system: whether there is something at
  \<open>repo_path\<close> and whether \<open>stat\<close> on it fails for another reason, the names of the
  entries of the directory and the names on which \<open>stat\<close> fails for another reason, what
  \<open>json.load\<close> gives for \<open>package.json\<close> and the text of \<open>requirements.txt\<close> (after Python's
  newline translation). For the last two \<open>None\<close> stands for an exception raised by \<open>open\<close>,
  by \<open>json.load\<close> or while reading.
\<close>

record repository =
  path_exists :: bool
  path_failure :: "os_failure option"
  root_entries :: "string list"
  stat_failures :: "(string \<times> os_failure) list"
  package_json :: "json option"
  requirements_txt :: "string option"

text \<open>\<open>repo_path.exists()\<close> of line 67 and \<open>(repo_path / file_name).exists()\<close> of lines 96 and 145.\<close>

definition exists_path :: "repository \<Rightarrow> error + bool" where
  "exists_path repo =
     (case path_failure repo of Some f \<Rightarrow> Inl (OSError f) | None \<Rightarrow> Inr (path_exists repo))"

definition exists_entry :: "repository \<Rightarrow> string \<Rightarrow> error + bool" where
  "exists_entry repo file_name =
     (case map_of (stat_failures repo) file_name of
        Some f \<Rightarrow> Inl (OSError f)
      | None \<Rightarrow> Inr (file_name \<in> set (root_entries repo)))"

definition file_exists :: "repository \<Rightarrow> string \<Rightarrow> bool" where
  "file_exists repo file_name = (exists_entry repo file_name = Inr True)"

datatype dependency_summary =
    NodeSummary (node_name: json) (node_main: json) (node_scripts: json)
      (node_dependencies: "string list")
  | PythonRequirements "string list"

record analysis =
  languages :: "string list"
  frameworks :: "string list"
  package_managers :: "(string \<times> bool) list"
  entry_points :: "string list"
  dependencies :: "(string \<times> dependency_summary) list"
  structure_files :: "(string \<times> bool) list"
  is_web_app :: bool
  default_port :: int

definition initial_analysis :: analysis where
  "initial_analysis =
     \<lparr>languages = [], frameworks = [], package_managers = [], entry_points = [],
      dependencies = [], structure_files = [], is_web_app = False, default_port = 3000\<rparr>"

definition package_files :: "(string \<times> string) list" where
  "package_files =
     [(''package.json'', ''node''),
      (''requirements.txt'', ''python''),
      (''Pipfile'', ''python''),
      (''setup.py'', ''python''),
      (''pom.xml'', ''java''),
      (''build.gradle'', ''java''),
      (''Cargo.toml'', ''rust''),
      (''go.mod'', ''go''),
      (''composer.json'', ''php'')]"

definition node_web_frameworks :: "string list" where
  "node_web_frameworks =
     [''express'', ''react'', ''vue'', ''angular'', ''next'', ''nuxt'', ''fastify'', ''koa'']"

definition python_web_frameworks :: "string list" where
  "python_web_frameworks =
     [''flask'', ''django'', ''fastapi'', ''tornado'', ''pyramid'', ''bottle'']"

definition common_files :: "string list" where
  "common_files =
     [''Dockerfile'', ''docker-compose.yml'', ''.dockerignore'',
      ''README.md'', ''LICENSE'', ''.gitignore'',
      ''main.py'', ''app.py'', ''server.js'', ''index.js'']"

text \<open>
  The part of the first \<open>try\<close> block that can raise (lines 103 to 110): \<open>json.load\<close>,
  \<open>pkg_json.get\<close> on a value that is not a \<open>dict\<close>, and \<open>.keys()\<close> on a
  \<open>dependencies\<close> value that is not a \<open>dict\<close>. It yields the summary stored under
  \<open>'node'\<close> and the \<open>deps\<close> of line 113.
\<close>

definition parse_package_json ::
  "repository \<Rightarrow> (dependency_summary \<times> (string \<times> json) list) option" where
  "parse_package_json repo =
     (case package_json repo of
        None \<Rightarrow> None
      | Some (JObject pkg_json) \<Rightarrow>
          (case dict_get pkg_json ''dependencies'' (JObject []) of
             JObject deps \<Rightarrow>
               Some (NodeSummary
                       (dict_get pkg_json ''name'' (JString ''unknown''))
                       (dict_get pkg_json ''main'' (JString ''index.js''))
                       (dict_get pkg_json ''scripts'' (JObject []))
                       (map fst deps),
                     deps)
           | _ \<Rightarrow> None)
      | Some _ \<Rightarrow> None)"

text \<open>
  Iterating over a text file gives its lines, each with its line feed (the last one
  may lack it).
\<close>

fun file_lines :: "string \<Rightarrow> string list" where
  "file_lines [] = []"
| "file_lines (c # cs) =
     (if c = CHR ''\<newline>'' then [c] # file_lines cs
      else (case file_lines cs of [] \<Rightarrow> [[c]] | l # ls \<Rightarrow> (c # l) # ls))"

text \<open>The list comprehension of line 125.\<close>

definition requirement_names :: "string \<Rightarrow> string list" where
  "requirement_names text =
     map (\<lambda>line. hd (split (strip line) ''==''))
       (filter (\<lambda>line. strip line \<noteq> [] \<and> \<not> startswith line ''#'') (file_lines text))"

definition parse_requirements :: "repository \<Rightarrow> string list option" where
  "parse_requirements repo = map_option requirement_names (requirements_txt repo)"

datatype warning = CouldNotParsePackageJson | CouldNotParseRequirements

text \<open>
  One round of the loop of lines 94 to 135 once \<open>file_path.exists()\<close> of line 96 has
  answered, on the analysis built so far and the warnings printed so far. The second
  \<open>file_path.exists()\<close> of lines 101 and 122 is the same call on the same path and gives
  the same answer.
\<close>

fun probe ::
  "repository \<Rightarrow> analysis \<times> warning list \<Rightarrow> string \<times> string \<Rightarrow> analysis \<times> warning list" where
  "probe repo (a, out) (file_name, lang) =
     (if file_exists repo file_name then
        (let a1 = a\<lparr>languages := languages a @ [lang],
                     package_managers := AList.update file_name True (package_managers a)\<rparr>
         in if file_name = ''package.json'' then
              (case parse_package_json repo of
                 None \<Rightarrow> (a1, out @ [CouldNotParsePackageJson])
               | Some (summary, deps) \<Rightarrow>
                   (let a2 = a1\<lparr>dependencies := AList.update ''node'' summary (dependencies a1)\<rparr>
                    in if list_ex (\<lambda>fw. fw \<in> set (map fst deps)) node_web_frameworks
                       then (a2\<lparr>is_web_app := True, default_port := 3000\<rparr>, out)
                       else (a2, out)))
            else if file_name = ''requirements.txt'' then
              (case parse_requirements repo of
                 None \<Rightarrow> (a1, out @ [CouldNotParseRequirements])
               | Some reqs \<Rightarrow>
                   (let a2 = a1\<lparr>dependencies :=
                                  AList.update ''python'' (PythonRequirements reqs) (dependencies a1)\<rparr>
                    in if list_ex (\<lambda>fw. lower fw \<in> set (map lower reqs)) python_web_frameworks
                       then (a2\<lparr>is_web_app := True,
                                 default_port :=
                                   (if ''fastapi'' \<in> set (map lower reqs) then 8000 else 5000)\<rparr>, out)
                       else (a2, out)))
            else (a1, out))
      else (a, out))"

text \<open>One round of the loop of lines 144 to 148 once \<open>exists()\<close> of line 145 has answered.\<close>

definition mark :: "repository \<Rightarrow> analysis \<Rightarrow> string \<Rightarrow> analysis" where
  "mark repo a file_name =
     (if file_exists repo file_name then
        (let a1 = a\<lparr>structure_files := AList.update file_name True (structure_files a)\<rparr>
         in if file_name \<in> set [''main.py'', ''app.py'', ''server.js'', ''index.js'']
            then a1\<lparr>entry_points := entry_points a1 @ [file_name]\<rparr>
            else a1)
      else a)"

text \<open>
  The two loops. An \<open>OSError\<close> raised by \<open>exists()\<close> at line 96 or 145 is outside every
  \<open>try\<close> and leaves the function; when \<open>exists()\<close> answers, the round goes on with that
  answer, which is what \<open>file_exists\<close> reads in \<open>probe\<close> and \<open>mark\<close>.
\<close>

fun probe_loop ::
  "repository \<Rightarrow> analysis \<times> warning list \<Rightarrow> (string \<times> string) list
     \<Rightarrow> error + analysis \<times> warning list" where
  "probe_loop repo st [] = Inr st"
| "probe_loop repo st ((file_name, lang) # rest) =
     (case exists_entry repo file_name of
        Inl e \<Rightarrow> Inl e
      | Inr present \<Rightarrow> probe_loop repo (probe repo st (file_name, lang)) rest)"

fun mark_loop :: "repository \<Rightarrow> analysis \<Rightarrow> string list \<Rightarrow> error + analysis" where
  "mark_loop repo a [] = Inr a"
| "mark_loop repo a (file_name # rest) =
     (case exists_entry repo file_name of
        Inl e \<Rightarrow> Inl e
      | Inr present \<Rightarrow> mark_loop repo (mark repo a file_name) rest)"

text \<open>
  \<open>analyze_repository\<close> returns the analysis; the model pairs it with the warnings
  printed on the way.
\<close>

definition analyze_repository :: "repository \<Rightarrow> error + analysis \<times> warning list" where
  "analyze_repository repo =
     (case exists_path repo of
        Inl e \<Rightarrow> Inl e
      | Inr False \<Rightarrow> Inl FileNotFoundError
      | Inr True \<Rightarrow>
          (case probe_loop repo (initial_analysis, []) package_files of
             Inl e \<Rightarrow> Inl e
           | Inr (a, out) \<Rightarrow>
               (case mark_loop repo a common_files of
                  Inl e \<Rightarrow> Inl e
                | Inr a' \<Rightarrow> Inr (a', out))))"

text \<open>
  The path is there and every \<open>exists()\<close> call of the analysis answers: none of them
  raises.
\<close>

definition probes_answer :: "repository \<Rightarrow> bool" where
  "probes_answer repo =
     (exists_path repo = Inr True \<and>
      list_all (\<lambda>file_name. map_of (stat_failures repo) file_name = None)
        (map fst package_files @ common_files))"

definition profile_of :: "error + analysis \<times> warning list \<Rightarrow> analysis option" where
  "profile_of result = (case result of Inl e \<Rightarrow> None | Inr (a, out) \<Rightarrow> Some a)"

definition warnings_of :: "error + analysis \<times> warning list \<Rightarrow> warning list" where
  "warnings_of result = (case result of Inl e \<Rightarrow> [] | Inr (a, out) \<Rightarrow> out)"

text \<open>
  The tests of lines 115 and 130, and the condition under which the second one is
  reached and holds: \<open>requirements.txt\<close> is there, is read without an exception and
  names a Python web framework.
\<close>

definition node_web_match :: "(string \<times> json) list \<Rightarrow> bool" where
  "node_web_match deps = list_ex (\<lambda>fw. fw \<in> set (map fst deps)) node_web_frameworks"

definition python_web_match :: "string list \<Rightarrow> bool" where
  "python_web_match reqs =
     list_ex (\<lambda>fw. lower fw \<in> set (map lower reqs)) python_web_frameworks"

definition python_port_applies :: "repository \<Rightarrow> bool" where
  "python_port_applies repo =
     (file_exists repo ''requirements.txt'' \<and>
      (case parse_requirements repo of None \<Rightarrow> False | Some reqs \<Rightarrow> python_web_match reqs))"











section \<open>Facts about the string operations\<close>


lemma startswith_Nil [simp]: "startswith s []"
  by (simp add: startswith_def)

lemma startswith_Nil_left [simp]: "startswith [] (p # ps) = False"
  by (simp add: startswith_def)

lemma startswith_Cons [simp]: "startswith (c # cs) (p # ps) = (c = p \<and> startswith cs ps)"
  by (auto simp: startswith_def)

lemma startswith_append: "startswith s (p @ q) \<Longrightarrow> startswith s p"
  by (induction p arbitrary: s) (case_tac s; simp)+

lemma startswith_drop: "startswith s p \<Longrightarrow> p @ drop (length p) s = s"
  by (metis append_take_drop_id startswith_def)

lemma split_not_Nil: "split s sep \<noteq> []"
  by (induction s sep rule: split.induct) (auto split: list.splits)

lemma join_Cons: "xs \<noteq> [] \<Longrightarrow> join sep (x # xs) = x @ sep @ join sep xs"
  by (cases xs) simp_all

lemma join_Cons_Cons: "join sep ((c # w) # ws) = c # join sep (w # ws)"
  by (cases ws) simp_all

lemma join_split: "sep \<noteq> [] \<Longrightarrow> join sep (split s sep) = s"
proof (induction s sep rule: split.induct)
  case (1 sep)
  show ?case by simp
next
  case (2 c cs sep)
  show ?case
  proof (cases "startswith (c # cs) sep")
    case True
    with 2 have "join sep (split (drop (length sep) (c # cs)) sep) = drop (length sep) (c # cs)"
      by simp
    with True 2(3) show ?thesis
      by (simp add: join_Cons split_not_Nil startswith_drop del: startswith_Cons)
  next
    case False
    obtain w ws where w: "split cs sep = w # ws"
      using split_not_Nil [of cs sep] by (cases "split cs sep") auto
    with 2 False have "join sep (w # ws) = cs" by simp
    with False w show ?thesis by (simp add: join_Cons_Cons)
  qed
qed

lemma replace_absent: "\<not> contains s old \<Longrightarrow> replace s old new = s"
  by (induction s old new rule: replace.induct) (auto)

lemma contains_append: "contains s (p @ q) \<Longrightarrow> contains s p"
  by (induction s) (auto dest: startswith_append)

lemma dockerfile_loop_filter:
  "dockerfile_loop acc ls =
     acc @ filter (\<lambda>line. line \<noteq> [] \<and> \<not> startswith line ''Here'' \<and> \<not> startswith line ''This'')
             (map strip ls)"
  by (induction ls arbitrary: acc) (simp_all add: Let_def del: startswith_Cons)

lemma k8s_loop_started: "k8s_loop True acc ls = acc @ ls"
  by (induction ls arbitrary: acc) simp_all

lemma k8s_loop_seeking:
  "k8s_loop False acc ls =
     acc @ dropWhile (\<lambda>line. \<not> (startswith (strip line) ''apiVersion:'' \<or> startswith (strip line) ''---'')) ls"
  by (induction ls arbitrary: acc) (simp_all add: k8s_loop_started del: startswith_Cons)

lemma starts_tick1: "startswith (replace s ''```'' []) ''`'' \<Longrightarrow> startswith s ''`''"
  by (cases s) (auto split: if_splits)

lemma starts_tick2: "startswith (replace s ''```'' []) ''``'' \<Longrightarrow> startswith s ''``''"
proof (cases "startswith s ''```''")
  case True
  then show ?thesis using startswith_append [of s "''``''" "''`''"] by simp
next
  case False
  assume "startswith (replace s ''```'' []) ''``''"
  with False show ?thesis by (cases s) (auto dest: starts_tick1)
qed

lemma no_fence_left: "\<not> contains (replace s ''```'' []) ''```''"
proof (induction s "''```''" "[] :: string" rule: replace.induct)
  case 1
  show ?case by simp
next
  case (2 c cs)
  show ?case
  proof (cases "startswith (c # cs) ''```''")
    case True
    with 2 show ?thesis by simp
  next
    case False
    with 2 have ih: "\<not> contains (replace cs ''```'' []) ''```''" by simp
    have "\<not> startswith (c # replace cs ''```'' []) ''```''"
    proof
      assume a: "startswith (c # replace cs ''```'' []) ''```''"
      then have "c = CHR 0x60" and "startswith (replace cs ''```'' []) ''``''" by simp_all
      with starts_tick2 have "startswith (c # cs) ''```''" by simp
      with False show False by simp
    qed
    moreover have "replace (c # cs) ''```'' [] = c # replace cs ''```'' []"
      using False by (simp del: startswith_Cons)
    ultimately show ?thesis using ih by (simp del: startswith_Cons replace.simps)
  qed
qed

lemma docker_replace_dead:
  "replace (replace s ''```'' []) ''```docker'' [] = replace s ''```'' []"
proof -
  have "\<not> contains (replace s ''```'' []) (''```'' @ ''docker'')"
    using contains_append no_fence_left by blast
  then show ?thesis by (simp add: replace_absent)
qed

section \<open>Container-file recovery\<close>

text \<open>
  The loop keeps, in order, the trimmed lines that are neither empty nor filler; the
  third \<open>replace\<close> of line 283 finds nothing, since the second one has already
  removed every triple backtick.
\<close>

lemma clean_dockerfile_response_lines:
  "clean_dockerfile_response response =
     join nl (filter (\<lambda>line. line \<noteq> [] \<and> \<not> filler_line line)
       (map strip (split (replace (replace response ''```dockerfile'' []) ''```'' []) nl)))"
  by (simp add: clean_dockerfile_response_def docker_replace_dead dockerfile_loop_filter
      filler_line_def del: startswith_Cons)

text \<open>
  C3, as stated, fails: a text without any fence and without any filler line is changed
  when it has a blank line (or a line with white space at either end). The blank line
  of \<open>FROM alpine / (blank) / RUN true\<close> is dropped.
\<close>

theorem clean_dockerfile_response_blank_line_counterexample:
  "\<not> contains ''FROM alpine\<newline>\<newline>RUN true'' ''```'' \<and>
   \<not> list_ex filler_line (split ''FROM alpine\<newline>\<newline>RUN true'' nl) \<and>
   clean_dockerfile_response ''FROM alpine\<newline>\<newline>RUN true'' \<noteq> ''FROM alpine\<newline>\<newline>RUN true''"
  by (simp add: clean_dockerfile_response_def filler_line_def strip_def is_space_def)

text \<open>
  C3, amended: a text without triple backtick, each of whose lines is non-empty, has
  no white space at either end and does not begin with \<open>Here\<close> or \<open>This\<close> (or the
  empty text), is returned unchanged by \<open>_clean_dockerfile_response\<close>.
\<close>

theorem clean_dockerfile_response_unchanged:
  assumes nofence: "\<not> contains text ''```''"
    and clean: "text = [] \<or> list_all (\<lambda>line. strip line = line \<and> line \<noteq> [] \<and> \<not> filler_line line) (split text nl)"
  shows "clean_dockerfile_response text = text"
proof -
  have "\<not> contains text (''```'' @ ''dockerfile'')"
    using nofence contains_append by blast
  then have r: "replace (replace text ''```dockerfile'' []) ''```'' [] = text"
    using nofence by (simp add: replace_absent)
  show ?thesis
  proof (cases "text = []")
    case True
    then show ?thesis by (simp add: clean_dockerfile_response_def strip_def)
  next
    case False
    with clean have all: "list_all (\<lambda>line. strip line = line \<and> line \<noteq> [] \<and> \<not> filler_line line) (split text nl)"
      by simp
    then have m: "map strip (split text nl) = split text nl"
      by (simp add: list_all_iff map_idI)
    from all have "filter (\<lambda>line. line \<noteq> [] \<and> \<not> filler_line line) (split text nl) = split text nl"
      by (simp add: list_all_iff)
    with m r show ?thesis
      by (simp add: clean_dockerfile_response_lines join_split)
  qed
qed

theorem clean_dockerfile_response_unchanged_witness:
  "clean_dockerfile_response ''FROM alpine\<newline>RUN true'' = ''FROM alpine\<newline>RUN true''"
proof -
  have a: "\<not> contains ''FROM alpine\<newline>RUN true'' ''```''" by simp
  have b: "''FROM alpine\<newline>RUN true'' = [] \<or> list_all (\<lambda>line. strip line = line \<and> line \<noteq> [] \<and> \<not> filler_line line) (split ''FROM alpine\<newline>RUN true'' nl)"
    by (simp add: filler_line_def strip_def is_space_def)
  show ?thesis using clean_dockerfile_response_unchanged [OF a b] .
qed

text \<open>
  C4: the language-tagged delimiter \<open>```docker\<close> is not removed as a whole. Line 283
  removes the plain triple backtick before it looks for \<open>```docker\<close>, so the tag
  \<open>docker\<close> stays behind as a line of the recovered container file.
\<close>

theorem clean_dockerfile_response_docker_tag_residue:
  "clean_dockerfile_response ''```docker\<newline>FROM alpine\<newline>```'' = ''docker\<newline>FROM alpine''"
  by (simp add: clean_dockerfile_response_def strip_def is_space_def)

section \<open>Orchestration-bundle recovery\<close>

text \<open>
  C5: on the lines of the text without its fence delimiters, \<open>_clean_k8s_response\<close>
  drops every line before the first one whose trimmed form starts with \<open>apiVersion:\<close>
  or \<open>---\<close>, keeps that line and all later lines as they are, and returns the empty
  string when no line qualifies. The function is total: it always returns.
\<close>

theorem clean_k8s_response_seek:
  "(\<forall>pre line post. split (k8s_unfenced response) nl = pre @ line # post \<and>
        \<not> list_ex yaml_start pre \<and> yaml_start line
      \<longrightarrow> clean_k8s_response response = join nl (line # post)) \<and>
   (\<not> list_ex yaml_start (split (k8s_unfenced response) nl) \<longrightarrow> clean_k8s_response response = [])"
proof -
  have eq: "clean_k8s_response response =
      join nl (dropWhile (\<lambda>line. \<not> yaml_start line) (split (k8s_unfenced response) nl))"
    by (simp add: clean_k8s_response_def k8s_unfenced_def k8s_loop_seeking yaml_start_def
        del: startswith_Cons)
  have a: "clean_k8s_response response = join nl (line # post)"
    if "split (k8s_unfenced response) nl = pre @ line # post" "\<not> list_ex yaml_start pre" "yaml_start line"
    for pre line post
  proof -
    from that(2) have "dropWhile (\<lambda>line. \<not> yaml_start line) (pre @ line # post) = dropWhile (\<lambda>line. \<not> yaml_start line) (line # post)"
      by (simp add: list_ex_iff dropWhile_append2)
    with that show ?thesis by (simp add: eq)
  qed
  have b: "clean_k8s_response response = []" if "\<not> list_ex yaml_start (split (k8s_unfenced response) nl)"
  proof -
    from that have "dropWhile (\<lambda>line. \<not> yaml_start line) (split (k8s_unfenced response) nl) = []"
      by (simp add: list_ex_iff)
    then show ?thesis unfolding eq by (simp only: join.simps)
  qed
  from a b show ?thesis by blast
qed

theorem clean_k8s_response_seek_witness:
  "clean_k8s_response ''Sure!\<newline>```yaml\<newline> apiVersion: v1\<newline>kind: Service\<newline>```''
     = '' apiVersion: v1\<newline>kind: Service\<newline>'' \<and>
   clean_k8s_response ''Sorry, I cannot help.\<newline>Try again.'' = []"
proof -
  let ?r = "''Sure!\<newline>```yaml\<newline> apiVersion: v1\<newline>kind: Service\<newline>```''"
  let ?g = "''Sorry, I cannot help.\<newline>Try again.''"
  have s: "split (k8s_unfenced ?r) nl = [''Sure!'', []] @ '' apiVersion: v1'' # [''kind: Service'', []]"
    by (simp add: k8s_unfenced_def)
  have p: "\<not> list_ex yaml_start [''Sure!'', []]"
    by (simp add: yaml_start_def strip_def is_space_def)
  have q: "yaml_start '' apiVersion: v1''"
    by (simp add: yaml_start_def strip_def is_space_def)
  have n: "\<not> list_ex yaml_start (split (k8s_unfenced ?g) nl)"
    by (simp add: k8s_unfenced_def yaml_start_def strip_def is_space_def)
  from s p q clean_k8s_response_seek [of ?r]
  have "clean_k8s_response ?r = join nl ('' apiVersion: v1'' # [''kind: Service'', []])"
    by blast
  moreover from n clean_k8s_response_seek [of ?g] have "clean_k8s_response ?g = []"
    by blast
  ultimately show ?thesis by simp
qed

section \<open>Manifest splitting\<close>

lemma splitter_pass_content:
  "map content (splitter_pass classify n fs) = filter (\<lambda>m. strip m \<noteq> []) fs"
  by (induction fs arbitrary: n) simp_all

lemma splitter_pass_ordinals:
  "map ordinal (splitter_pass classify n fs) =
     map (\<lambda>i. n + i) [0..<length (filter (\<lambda>m. strip m \<noteq> []) fs)]"
proof (induction fs arbitrary: n)
  case Nil
  show ?case by simp
next
  case (Cons m fs)
  show ?case
  proof (cases "strip m = []")
    case True
    with Cons show ?thesis by simp
  next
    case False
    let ?k = "length (filter (\<lambda>m. strip m \<noteq> []) fs)"
    have e: "[0..<Suc ?k] = 0 # map Suc [0..<?k]"
      by (simp only: map_Suc_upt upt_conv_Cons [OF zero_less_Suc])
    have "map (\<lambda>i. n + i) [0..<Suc ?k] = n # map (\<lambda>i. Suc n + i) [0..<?k]"
      unfolding e by (simp add: comp_def del: upt_Suc)
    with False Cons [of "Suc n"] show ?thesis by (simp del: upt_Suc)
  qed
qed

text \<open>
  C2 (against the model of the spec's \<open>ManifestSplitter\<close>): the surviving fragments are
  the non-blank candidates in their order, and the ordinal of each is its 0-based
  position among them; three candidates whose middle one is blank give two fragments
  with the ordinals 0 and 1.
\<close>

theorem manifest_splitter_ordinals:
  "map content (manifest_splitter classify text) =
     filter (\<lambda>m. strip m \<noteq> []) (split text ''---'') \<and>
   map ordinal (manifest_splitter classify text) =
     [0..<length (filter (\<lambda>m. strip m \<noteq> []) (split text ''---''))] \<and>
   (\<forall>a b c. split text ''---'' = [a, b, c] \<and> strip a \<noteq> [] \<and> strip b = [] \<and> strip c \<noteq> []
      \<longrightarrow> map ordinal (manifest_splitter classify text) = [0, 1])"
proof -
  have o: "map ordinal (manifest_splitter classify text) =
     [0..<length (filter (\<lambda>m. strip m \<noteq> []) (split text ''---''))]"
    by (simp add: manifest_splitter_def splitter_pass_ordinals map_idI)
  have c: "map content (manifest_splitter classify text) =
     filter (\<lambda>m. strip m \<noteq> []) (split text ''---'')"
    by (simp add: manifest_splitter_def splitter_pass_content)
  have "map ordinal (manifest_splitter classify text) = [0, 1]"
    if "split text ''---'' = [a, b, c]" "strip a \<noteq> []" "strip b = []" "strip c \<noteq> []"
    for a b c
    using that by (simp add: manifest_splitter_def)
  with o c show ?thesis by blast
qed

theorem manifest_splitter_ordinals_witness:
  "map ordinal (manifest_splitter (\<lambda>m. ''unknown'')
      ''kind: Service\<newline>---\<newline>\<newline>---\<newline>kind: Deployment'') = [0, 1]"
proof -
  let ?t = "''kind: Service\<newline>---\<newline>\<newline>---\<newline>kind: Deployment''"
  have s: "split ?t ''---'' = [''kind: Service\<newline>'', ''\<newline>\<newline>'', ''\<newline>kind: Deployment'']"
    by simp
  have b: "strip ''kind: Service\<newline>'' \<noteq> [] \<and> strip ''\<newline>\<newline>'' = [] \<and>
      strip ''\<newline>kind: Deployment'' \<noteq> []"
    by (simp add: strip_def is_space_def)
  from manifest_splitter_ordinals [of "\<lambda>m. ''unknown''" ?t] s b show ?thesis by blast
qed


section \<open>Facts about the repository analysis\<close>

lemma exists_entry_answers:
  "map_of (stat_failures repo) n = None \<Longrightarrow> exists_entry repo n = Inr (file_exists repo n)"
  by (simp add: exists_entry_def file_exists_def)

lemma exists_entry_Inr:
  "exists_entry repo n = Inr b \<Longrightarrow> map_of (stat_failures repo) n = None"
  by (simp add: exists_entry_def split: option.splits)

lemma exists_entry_Inl: "exists_entry repo n = Inl e \<Longrightarrow> e \<noteq> FileNotFoundError"
  by (auto simp: exists_entry_def split: option.splits)

lemma probe_loop_answers:
  "list_all (\<lambda>n. map_of (stat_failures repo) n = None) (map fst tbl) \<Longrightarrow>
   probe_loop repo st tbl = Inr (foldl (probe repo) st tbl)"
proof (induction tbl arbitrary: st)
  case Nil
  show ?case by simp
next
  case (Cons e tbl)
  obtain file_name lang where e: "e = (file_name, lang)" by (cases e)
  from Cons.prems have "exists_entry repo file_name = Inr (file_exists repo file_name)"
    by (simp add: e exists_entry_answers)
  with Cons show ?case by (simp add: e del: probe.simps)
qed

lemma mark_loop_answers:
  "list_all (\<lambda>n. map_of (stat_failures repo) n = None) fs \<Longrightarrow>
   mark_loop repo a fs = Inr (foldl (mark repo) a fs)"
  by (induction fs arbitrary: a) (simp_all add: exists_entry_answers)

lemma probe_loop_Inr:
  "probe_loop repo st tbl = Inr st' \<Longrightarrow>
   list_all (\<lambda>n. map_of (stat_failures repo) n = None) (map fst tbl)"
proof (induction tbl arbitrary: st)
  case Nil
  show ?case by simp
next
  case (Cons e tbl)
  obtain file_name lang where e: "e = (file_name, lang)" by (cases e)
  from Cons.prems obtain b where b: "exists_entry repo file_name = Inr b"
    and r: "probe_loop repo (probe repo st (file_name, lang)) tbl = Inr st'"
    by (auto simp: e simp del: probe.simps split: sum.splits)
  from Cons.IH [OF r] exists_entry_Inr [OF b] show ?case by (simp add: e)
qed

lemma mark_loop_Inr:
  "mark_loop repo a fs = Inr a' \<Longrightarrow> list_all (\<lambda>n. map_of (stat_failures repo) n = None) fs"
proof (induction fs arbitrary: a)
  case Nil
  show ?case by simp
next
  case (Cons f fs)
  from Cons.prems obtain b where b: "exists_entry repo f = Inr b"
    and r: "mark_loop repo (mark repo a f) fs = Inr a'"
    by (auto split: sum.splits)
  from Cons.IH [OF r] exists_entry_Inr [OF b] show ?case by simp
qed

lemma probe_loop_Inl: "probe_loop repo st tbl = Inl e \<Longrightarrow> e \<noteq> FileNotFoundError"
proof (induction tbl arbitrary: st)
  case Nil
  then show ?case by simp
next
  case (Cons x tbl)
  obtain file_name lang where x: "x = (file_name, lang)" by (cases x)
  show ?case
  proof (cases "exists_entry repo file_name")
    case (Inl e')
    with Cons.prems have "e = e'" by (simp add: x del: probe.simps)
    with Inl exists_entry_Inl show ?thesis by blast
  next
    case (Inr b)
    with Cons.prems have "probe_loop repo (probe repo st (file_name, lang)) tbl = Inl e"
      by (simp add: x del: probe.simps)
    then show ?thesis by (rule Cons.IH)
  qed
qed

lemma mark_loop_Inl: "mark_loop repo a fs = Inl e \<Longrightarrow> e \<noteq> FileNotFoundError"
proof (induction fs arbitrary: a)
  case Nil
  then show ?case by simp
next
  case (Cons f fs)
  show ?case
  proof (cases "exists_entry repo f")
    case (Inl e')
    with Cons.prems have "e = e'" by simp
    with Inl exists_entry_Inl show ?thesis by blast
  next
    case (Inr b)
    with Cons.prems have "mark_loop repo (mark repo a f) fs = Inl e" by simp
    then show ?thesis by (rule Cons.IH)
  qed
qed

lemma analyze_repository_Inr:
  assumes "probes_answer repo"
  shows "analyze_repository repo =
     Inr (foldl (mark repo) (fst (foldl (probe repo) (initial_analysis, []) package_files)) common_files,
          snd (foldl (probe repo) (initial_analysis, []) package_files))"
proof -
  from assms have p: "exists_path repo = Inr True"
    and a: "list_all (\<lambda>n. map_of (stat_failures repo) n = None) (map fst package_files)"
    and c: "list_all (\<lambda>n. map_of (stat_failures repo) n = None) common_files"
    by (simp_all add: probes_answer_def)
  show ?thesis
    by (simp add: analyze_repository_def p probe_loop_answers [OF a] mark_loop_answers [OF c]
        split: prod.splits)
qed

lemma analyze_repository_returns:
  assumes "analyze_repository repo = Inr (a, out)"
  shows "probes_answer repo"
proof -
  from assms have p: "exists_path repo = Inr True"
    by (auto simp: analyze_repository_def split: sum.splits bool.splits)
  with assms obtain st where s: "probe_loop repo (initial_analysis, []) package_files = Inr st"
    by (auto simp: analyze_repository_def split: sum.splits)
  with assms p obtain a' where "mark_loop repo (fst st) common_files = Inr a'"
    by (auto simp: analyze_repository_def split: sum.splits prod.splits)
  with probe_loop_Inr [OF s] mark_loop_Inr p show ?thesis
    by (auto simp: probes_answer_def)
qed

lemma file_exists_answers:
  assumes "probes_answer repo" "f \<in> set (map fst package_files @ common_files)"
  shows "file_exists repo f = (f \<in> set (root_entries repo))"
proof -
  from assms have "map_of (stat_failures repo) f = None"
    by (auto simp: probes_answer_def list_all_iff)
  then show ?thesis by (simp add: file_exists_def exists_entry_def)
qed


lemma probe_languages:
  "languages (fst (probe repo st e)) =
     languages (fst st) @ (if file_exists repo (fst e) then [snd e] else [])"
  by (cases st; cases e) (simp add: Let_def split: option.splits prod.splits)

lemma foldl_probe_languages:
  "languages (fst (foldl (probe repo) st tbl)) =
     languages (fst st) @ map snd (filter (\<lambda>e. file_exists repo (fst e)) tbl)"
  by (induction tbl arbitrary: st) (simp_all add: probe_languages)

lemma mark_languages: "languages (mark repo a f) = languages a"
  by (simp add: mark_def Let_def)

lemma foldl_mark_languages: "languages (foldl (mark repo) a fs) = languages a"
  by (induction fs arbitrary: a) (simp_all add: mark_languages)

lemma analyze_repository_languages:
  assumes "analyze_repository repo = Inr (a, out)"
  shows "languages a = map snd (filter (\<lambda>e. file_exists repo (fst e)) package_files)"
proof -
  from assms have "probes_answer repo" by (rule analyze_repository_returns)
  from analyze_repository_Inr [OF this] assms
  have "a = foldl (mark repo) (fst (foldl (probe repo) (initial_analysis, []) package_files)) common_files"
    by simp
  then show ?thesis
    by (simp add: foldl_mark_languages foldl_probe_languages initial_analysis_def)
qed

lemma probe_package_managers:
  "package_managers (fst (probe repo st e)) =
     (if file_exists repo (fst e) then AList.update (fst e) True (package_managers (fst st))
      else package_managers (fst st))"
  by (cases st; cases e) (simp add: Let_def split: option.splits prod.splits)

lemma foldl_probe_package_managers:
  "package_managers (fst (foldl (probe repo) st tbl)) =
     foldl (\<lambda>pm e. AList.update (fst e) True pm) (package_managers (fst st))
       (filter (\<lambda>e. file_exists repo (fst e)) tbl)"
  by (induction tbl arbitrary: st) (simp_all add: probe_package_managers)

lemma probe_entry_points: "entry_points (fst (probe repo st e)) = entry_points (fst st)"
  by (cases st; cases e) (simp add: Let_def split: option.splits prod.splits)

lemma probe_structure_files: "structure_files (fst (probe repo st e)) = structure_files (fst st)"
  by (cases st; cases e) (simp add: Let_def split: option.splits prod.splits)

lemma foldl_probe_entry_points:
  "entry_points (fst (foldl (probe repo) st tbl)) = entry_points (fst st)"
  by (induction tbl arbitrary: st) (simp_all add: probe_entry_points)

lemma foldl_probe_structure_files:
  "structure_files (fst (foldl (probe repo) st tbl)) = structure_files (fst st)"
  by (induction tbl arbitrary: st) (simp_all add: probe_structure_files)

lemma probe_plain_web:
  assumes "fst e \<noteq> ''package.json''" "fst e \<noteq> ''requirements.txt''"
  shows "is_web_app (fst (probe repo st e)) = is_web_app (fst st)"
    and "default_port (fst (probe repo st e)) = default_port (fst st)"
    and "dependencies (fst (probe repo st e)) = dependencies (fst st)"
    and "snd (probe repo st e) = snd st"
  using assms by (cases st; cases e; simp add: Let_def)+

lemma foldl_probe_plain_web:
  assumes "\<forall>e \<in> set tbl. fst e \<noteq> ''package.json'' \<and> fst e \<noteq> ''requirements.txt''"
  shows "is_web_app (fst (foldl (probe repo) st tbl)) = is_web_app (fst st)"
    and "default_port (fst (foldl (probe repo) st tbl)) = default_port (fst st)"
    and "dependencies (fst (foldl (probe repo) st tbl)) = dependencies (fst st)"
    and "snd (foldl (probe repo) st tbl) = snd st"
  using assms by (induction tbl arbitrary: st; simp add: probe_plain_web)+

lemma mark_frame:
  "is_web_app (mark repo a f) = is_web_app a"
  "default_port (mark repo a f) = default_port a"
  "dependencies (mark repo a f) = dependencies a"
  "package_managers (mark repo a f) = package_managers a"
  "frameworks (mark repo a f) = frameworks a"
  by (simp_all add: mark_def Let_def)

lemma foldl_mark_frame:
  "is_web_app (foldl (mark repo) a fs) = is_web_app a"
  "default_port (foldl (mark repo) a fs) = default_port a"
  "dependencies (foldl (mark repo) a fs) = dependencies a"
  "package_managers (foldl (mark repo) a fs) = package_managers a"
  "frameworks (foldl (mark repo) a fs) = frameworks a"
  by (induction fs arbitrary: a; simp add: mark_frame)+

lemma foldl_mark_entry_points:
  "entry_points (foldl (mark repo) a fs) =
     entry_points a @
       filter (\<lambda>f. f \<in> set [''main.py'', ''app.py'', ''server.js'', ''index.js''])
         (filter (file_exists repo) fs)"
  by (induction fs arbitrary: a) (simp_all add: mark_def Let_def)

lemma foldl_mark_structure_files:
  "structure_files (foldl (mark repo) a fs) =
     foldl (\<lambda>s f. AList.update f True s) (structure_files a) (filter (file_exists repo) fs)"
  by (induction fs arbitrary: a) (simp_all add: mark_def Let_def)

text \<open>The state after the two rounds that read a manifest.\<close>

lemma package_files_split:
  "package_files =
     (''package.json'', ''node'') # (''requirements.txt'', ''python'') # drop 2 package_files"
  by (simp add: package_files_def)

lemma analysis_fields:
  assumes "analyze_repository repo = Inr (a, out)"
  defines "st \<equiv> probe repo (probe repo (initial_analysis, []) (''package.json'', ''node''))
                    (''requirements.txt'', ''python'')"
  shows "is_web_app a = is_web_app (fst st)"
    and "default_port a = default_port (fst st)"
    and "dependencies a = dependencies (fst st)"
    and "out = snd st"
    and "entry_points a =
       filter (\<lambda>f. f \<in> set [''main.py'', ''app.py'', ''server.js'', ''index.js''])
         (filter (file_exists repo) common_files)"
    and "structure_files a =
       foldl (\<lambda>s f. AList.update f True s) [] (filter (file_exists repo) common_files)"
    and "package_managers a =
       foldl (\<lambda>pm e. AList.update (fst e) True pm) []
         (filter (\<lambda>e. file_exists repo (fst e)) package_files)"
proof -
  from assms(1) have "probes_answer repo" by (rule analyze_repository_returns)
  from analyze_repository_Inr [OF this] assms(1)
  have a: "a = foldl (mark repo) (fst (foldl (probe repo) (initial_analysis, []) package_files)) common_files"
    and o: "out = snd (foldl (probe repo) (initial_analysis, []) package_files)"
    by simp_all
  have f: "foldl (probe repo) (initial_analysis, []) package_files =
      foldl (probe repo) st (drop 2 package_files)"
    by (subst package_files_split) (simp add: st_def)
  have r: "\<forall>e \<in> set (drop 2 package_files). fst e \<noteq> ''package.json'' \<and> fst e \<noteq> ''requirements.txt''"
    by (simp add: package_files_def)
  show "is_web_app a = is_web_app (fst st)"
    by (simp add: a foldl_mark_frame f foldl_probe_plain_web [OF r])
  show "default_port a = default_port (fst st)"
    by (simp add: a foldl_mark_frame f foldl_probe_plain_web [OF r])
  show "dependencies a = dependencies (fst st)"
    by (simp add: a foldl_mark_frame f foldl_probe_plain_web [OF r])
  show "out = snd st"
    by (simp add: o f foldl_probe_plain_web [OF r])
  show "entry_points a =
       filter (\<lambda>f. f \<in> set [''main.py'', ''app.py'', ''server.js'', ''index.js''])
         (filter (file_exists repo) common_files)"
    by (simp add: a foldl_mark_entry_points foldl_probe_entry_points initial_analysis_def)
  show "structure_files a =
       foldl (\<lambda>s f. AList.update f True s) [] (filter (file_exists repo) common_files)"
    by (simp add: a foldl_mark_structure_files foldl_probe_structure_files initial_analysis_def)
  show "package_managers a =
       foldl (\<lambda>pm e. AList.update (fst e) True pm) []
         (filter (\<lambda>e. file_exists repo (fst e)) package_files)"
    by (simp add: a foldl_mark_frame foldl_probe_package_managers initial_analysis_def)
qed






lemma python_web_frameworks_lower: "map lower python_web_frameworks = python_web_frameworks"
  by code_simp

lemma python_web_match_iff:
  "python_web_match reqs = (\<exists>r \<in> set reqs. lower r \<in> set python_web_frameworks)"
proof -
  have "python_web_match reqs = (\<exists>fw \<in> set (map lower python_web_frameworks). fw \<in> set (map lower reqs))"
    by (simp add: python_web_match_def list_ex_iff)
  then show ?thesis
    unfolding python_web_frameworks_lower by auto
qed

lemma probe_requirements_match:
  assumes "file_exists repo ''requirements.txt''" "requirements_txt repo = Some text"
    "python_web_match (requirement_names text)"
  shows "is_web_app (fst (probe repo st (''requirements.txt'', ''python'')))"
    and "default_port (fst (probe repo st (''requirements.txt'', ''python''))) =
       (if ''fastapi'' \<in> set (map lower (requirement_names text)) then 8000 else 5000)"
proof -
  obtain a out where st: "st = (a, out)" by (cases st)
  show "is_web_app (fst (probe repo st (''requirements.txt'', ''python'')))"
    unfolding st using assms
    by (simp add: parse_requirements_def python_web_match_def Let_def)
  show "default_port (fst (probe repo st (''requirements.txt'', ''python''))) =
       (if ''fastapi'' \<in> set (map lower (requirement_names text)) then 8000 else 5000)"
    unfolding st using assms
    by (simp add: parse_requirements_def python_web_match_def Let_def)
qed

lemma parse_package_json_web:
  assumes "package_json repo = Some (JObject pkg)" "map_of pkg ''dependencies'' = Some (JObject deps)"
  shows "parse_package_json repo =
     Some (NodeSummary (dict_get pkg ''name'' (JString ''unknown''))
             (dict_get pkg ''main'' (JString ''index.js''))
             (dict_get pkg ''scripts'' (JObject [])) (map fst deps), deps)"
  using assms by (simp add: parse_package_json_def dict_get_def)

lemma probe_package_json_match:
  assumes "file_exists repo ''package.json''" "package_json repo = Some (JObject pkg)"
    "map_of pkg ''dependencies'' = Some (JObject deps)" "node_web_match deps"
  shows "is_web_app (fst (probe repo st (''package.json'', ''node'')))"
    and "default_port (fst (probe repo st (''package.json'', ''node''))) = 3000"
proof -
  obtain a out where st: "st = (a, out)" by (cases st)
  note p = parse_package_json_web [OF assms(2,3)]
  show "is_web_app (fst (probe repo st (''package.json'', ''node'')))"
    unfolding st using assms(1,4) by (simp add: p node_web_match_def Let_def)
  show "default_port (fst (probe repo st (''package.json'', ''node''))) = 3000"
    unfolding st using assms(1,4) by (simp add: p node_web_match_def Let_def)
qed

lemma probe_requirements_no_effect:
  assumes "\<not> python_port_applies repo"
  shows "is_web_app (fst (probe repo st (''requirements.txt'', ''python''))) = is_web_app (fst st)"
    and "default_port (fst (probe repo st (''requirements.txt'', ''python''))) = default_port (fst st)"
proof -
  obtain a out where st: "st = (a, out)" by (cases st)
  show "is_web_app (fst (probe repo st (''requirements.txt'', ''python''))) = is_web_app (fst st)"
    unfolding st using assms
    by (auto simp: python_port_applies_def python_web_match_def Let_def split: option.splits)
  show "default_port (fst (probe repo st (''requirements.txt'', ''python''))) = default_port (fst st)"
    unfolding st using assms
    by (auto simp: python_port_applies_def python_web_match_def Let_def split: option.splits)
qed

lemma probe_absent: "\<not> file_exists repo (fst e) \<Longrightarrow> probe repo st e = st"
  by (cases st; cases e) simp

lemma foldl_probe_absent:
  "\<forall>e \<in> set tbl. \<not> file_exists repo (fst e) \<Longrightarrow> foldl (probe repo) st tbl = st"
  by (induction tbl arbitrary: st) (simp_all add: probe_absent)

lemma foldl_mark_absent:
  "\<forall>f \<in> set fs. \<not> file_exists repo f \<Longrightarrow> foldl (mark repo) a fs = a"
  by (induction fs arbitrary: a) (simp_all add: mark_def)

lemma python_port_appliesE:
  assumes "python_port_applies repo"
  obtains t where "file_exists repo ''requirements.txt''" "requirements_txt repo = Some t"
    "python_web_match (requirement_names t)"
  using assms
  by (auto simp: python_port_applies_def parse_requirements_def split: option.splits)

lemma probe_requirements_keeps_web:
  assumes "is_web_app (fst st)"
  shows "is_web_app (fst (probe repo st (''requirements.txt'', ''python'')))"
proof (cases "python_port_applies repo")
  case True
  then show ?thesis by (elim python_port_appliesE) (rule probe_requirements_match)
next
  case False
  with assms show ?thesis by (simp add: probe_requirements_no_effect)
qed







section \<open>Properties of the repository analysis\<close>

text \<open>
  C1, as stated, fails: line 97 appends the language of every marker file that is
  present and never looks at what the list already holds. With \<open>requirements.txt\<close> and
  \<open>setup.py\<close> at the root the profile lists \<open>python\<close> twice.
\<close>

theorem languages_duplicate_counterexample:
  "map_option languages (profile_of (analyze_repository
      \<lparr>path_exists = True, path_failure = None, root_entries = [''requirements.txt'', ''setup.py''], stat_failures = [],
       package_json = None, requirements_txt = Some ''requests==2.31.0''\<rparr>))
   = Some [''python'', ''python'']"
  by code_simp

text \<open>
  C1, amended: for every profile \<open>analyze_repository\<close> produces, \<open>languages\<close> holds one
  tag per marker file present, in the order of the probe table, and it is free of
  duplicates exactly when no two marker files present at the root map to the same
  language.
\<close>

theorem languages_duplicate_free_iff:
  assumes "analyze_repository repo = Inr (a, out)"
  shows "languages a = map snd (filter (\<lambda>e. file_exists repo (fst e)) package_files) \<and>
     distinct (languages a) =
       inj_on snd {e \<in> set package_files. file_exists repo (fst e)}"
proof -
  have d: "distinct package_files" by (simp add: package_files_def)
  show ?thesis
    unfolding analyze_repository_languages [OF assms]
    by (simp add: distinct_map d)
qed

theorem languages_duplicate_free_iff_witness:
  "\<exists>a out. analyze_repository
       \<lparr>path_exists = True, path_failure = None, root_entries = [''package.json'', ''requirements.txt'', ''pom.xml''], stat_failures = [],
        package_json = Some (JObject []), requirements_txt = Some ''requests''\<rparr> = Inr (a, out) \<and>
     languages a = [''node'', ''python'', ''java''] \<and>
     distinct (languages a) \<and>
     inj_on snd {e \<in> set package_files. file_exists
       \<lparr>path_exists = True, path_failure = None, root_entries = [''package.json'', ''requirements.txt'', ''pom.xml''], stat_failures = [],
        package_json = Some (JObject []), requirements_txt = Some ''requests''\<rparr> (fst e)}"
proof -
  let ?r = "\<lparr>path_exists = True, path_failure = None, root_entries = [''package.json'', ''requirements.txt'', ''pom.xml''], stat_failures = [],
        package_json = Some (JObject []), requirements_txt = Some ''requests''\<rparr>"
  have "probes_answer ?r"
    by (simp add: probes_answer_def exists_path_def package_files_def common_files_def)
  then obtain a out where h: "analyze_repository ?r = Inr (a, out)"
    using analyze_repository_Inr by blast
  have p: "map snd (filter (\<lambda>e. file_exists ?r (fst e)) package_files) =
      [''node'', ''python'', ''java'']"
    by (simp add: package_files_def file_exists_def exists_entry_def)
  note t = languages_duplicate_free_iff [OF h, unfolded p]
  from t have l: "languages a = [''node'', ''python'', ''java'']"
    by (rule conjunct1)
  from t have i: "distinct (languages a) =
      inj_on snd {e \<in> set package_files. file_exists ?r (fst e)}"
    by (rule conjunct2)
  from l have "distinct (languages a)" by simp
  with l i h show ?thesis by blast
qed

text \<open>
  C6, as stated, fails in its first half: a \<open>package.json\<close> that depends on
  \<open>express\<close> does not fix the port at 3000 when \<open>requirements.txt\<close> names a Python web
  framework too; the later round of the loop overwrites \<open>default_port\<close>.
\<close>

theorem node_port_overridden_counterexample:
  "map_option default_port (profile_of (analyze_repository
      \<lparr>path_exists = True, path_failure = None, root_entries = [''package.json'', ''requirements.txt''], stat_failures = [],
       package_json = Some (JObject [(''dependencies'', JObject [(''express'', JString ''^4'')])]),
       requirements_txt = Some ''flask==2.0''\<rparr>))
   = Some 5000"
  by code_simp

text \<open>
  C6, amended: for an existing repository (every \<open>exists()\<close> call answering) whose
  \<open>package.json\<close> has a \<open>dependencies\<close> object with a key from the Node allow-list,
  \<open>analyze_repository\<close> returns \<open>is_web_app = True\<close>, and \<open>default_port = 3000\<close> unless
  \<open>requirements.txt\<close> is present, readable and names a Python web framework. For one
  whose \<open>requirements.txt\<close> names a Python web framework (the name before \<open>==\<close>, compared
  in lower case) it returns \<open>is_web_app = True\<close> and \<open>default_port\<close> 8000 when \<open>fastapi\<close> is
  among the names and 5000 otherwise.
\<close>

theorem web_app_derivation:
  assumes "probes_answer repo"
  shows "\<exists>a out. analyze_repository repo = Inr (a, out) \<and>
     (\<forall>pkg deps. file_exists repo ''package.json'' \<and> package_json repo = Some (JObject pkg) \<and>
         map_of pkg ''dependencies'' = Some (JObject deps) \<and> node_web_match deps
       \<longrightarrow> is_web_app a \<and> (\<not> python_port_applies repo \<longrightarrow> default_port a = 3000)) \<and>
     (\<forall>text. file_exists repo ''requirements.txt'' \<and> requirements_txt repo = Some text \<and>
         python_web_match (requirement_names text)
       \<longrightarrow> is_web_app a \<and>
           default_port a =
             (if ''fastapi'' \<in> set (map lower (requirement_names text)) then 8000 else 5000))"
proof -
  obtain a out where r: "analyze_repository repo = Inr (a, out)"
    using analyze_repository_Inr [OF assms] by blast
  note f = analysis_fields(1,2) [OF r]
  have node: "is_web_app a \<and> (\<not> python_port_applies repo \<longrightarrow> default_port a = 3000)"
    if "file_exists repo ''package.json''" "package_json repo = Some (JObject pkg)"
      "map_of pkg ''dependencies'' = Some (JObject deps)" "node_web_match deps"
    for pkg deps
    using probe_package_json_match [OF that, of "(initial_analysis, [])"]
    by (simp add: f probe_requirements_keeps_web probe_requirements_no_effect)
  have python: "is_web_app a \<and>
      default_port a = (if ''fastapi'' \<in> set (map lower (requirement_names t)) then 8000 else 5000)"
    if "file_exists repo ''requirements.txt''" "requirements_txt repo = Some t"
      "python_web_match (requirement_names t)"
    for t
    using probe_requirements_match [OF that] by (simp add: f)
  from r node python show ?thesis by blast
qed

theorem web_app_derivation_witness:
  "(\<exists>a out. analyze_repository
       \<lparr>path_exists = True, path_failure = None, root_entries = [''package.json''], stat_failures = [],
        package_json = Some (JObject [(''dependencies'', JObject [(''express'', JString ''^4'')])]),
        requirements_txt = None\<rparr> = Inr (a, out) \<and> is_web_app a \<and> default_port a = 3000) \<and>
   (\<exists>a out. analyze_repository
       \<lparr>path_exists = True, path_failure = None, root_entries = [''requirements.txt''], stat_failures = [],
        package_json = None, requirements_txt = Some ''fastapi==0.100.0''\<rparr> = Inr (a, out) \<and>
      is_web_app a \<and> default_port a = 8000) \<and>
   (\<exists>a out. analyze_repository
       \<lparr>path_exists = True, path_failure = None, root_entries = [''requirements.txt''], stat_failures = [],
        package_json = None, requirements_txt = Some ''Flask==2.0''\<rparr> = Inr (a, out) \<and>
      is_web_app a \<and> default_port a = 5000)"
proof -
  let ?e = "\<lparr>path_exists = True, path_failure = None, root_entries = [''package.json''], stat_failures = [],
        package_json = Some (JObject [(''dependencies'', JObject [(''express'', JString ''^4'')])]),
        requirements_txt = None\<rparr>"
  let ?f = "\<lparr>path_exists = True, path_failure = None, root_entries = [''requirements.txt''], stat_failures = [],
        package_json = None, requirements_txt = Some ''fastapi==0.100.0''\<rparr>"
  let ?k = "\<lparr>path_exists = True, path_failure = None, root_entries = [''requirements.txt''], stat_failures = [],
        package_json = None, requirements_txt = Some ''Flask==2.0''\<rparr>"
  have ae: "probes_answer ?e" and af: "probes_answer ?f" and ak: "probes_answer ?k"
    by (simp_all add: probes_answer_def exists_path_def package_files_def common_files_def)
  have e: "file_exists ?e ''package.json'' \<and>
      package_json ?e = Some (JObject [(''dependencies'', JObject [(''express'', JString ''^4'')])]) \<and>
      map_of [(''dependencies'', JObject [(''express'', JString ''^4'')])] ''dependencies'' =
        Some (JObject [(''express'', JString ''^4'')]) \<and>
      node_web_match [(''express'', JString ''^4'')]"
    by (simp add: file_exists_def exists_entry_def node_web_match_def node_web_frameworks_def)
  have ne: "\<not> python_port_applies ?e"
    by (simp add: python_port_applies_def file_exists_def exists_entry_def)
  have mf: "python_web_match (requirement_names ''fastapi==0.100.0'')" by code_simp
  have pf: "''fastapi'' \<in> set (map lower (requirement_names ''fastapi==0.100.0''))" by code_simp
  have mk: "python_web_match (requirement_names ''Flask==2.0'')" by code_simp
  have pk: "''fastapi'' \<notin> set (map lower (requirement_names ''Flask==2.0''))" by code_simp
  have f: "file_exists ?f ''requirements.txt'' \<and> requirements_txt ?f = Some ''fastapi==0.100.0''"
    by (simp add: file_exists_def exists_entry_def)
  have k: "file_exists ?k ''requirements.txt'' \<and> requirements_txt ?k = Some ''Flask==2.0''"
    by (simp add: file_exists_def exists_entry_def)
  have "\<exists>a out. analyze_repository ?e = Inr (a, out) \<and> is_web_app a \<and> default_port a = 3000"
    using web_app_derivation [OF ae] e ne by simp
  moreover
  have "\<exists>a out. analyze_repository ?f = Inr (a, out) \<and> is_web_app a \<and> default_port a = 8000"
    using web_app_derivation [OF af] f mf pf by simp
  moreover
  have "\<exists>a out. analyze_repository ?k = Inr (a, out) \<and> is_web_app a \<and> default_port a = 5000"
    using web_app_derivation [OF ak] k mk pk by simp
  ultimately show ?thesis by blast
qed

text \<open>
  C7, as stated, fails: \<open>exists()\<close> at line 96 is outside every \<open>try\<close>, and on an existing
  directory without search permission it raises \<open>PermissionError\<close> for the first marker
  name, although the directory holds no marker file.
\<close>

theorem analyze_repository_unrecognized_counterexample:
  "path_exists \<lparr>path_exists = True, path_failure = None, root_entries = [''notes.txt''],
      stat_failures = [(''package.json'', EACCES)], package_json = None,
      requirements_txt = None\<rparr> \<and>
   set (root_entries \<lparr>path_exists = True, path_failure = None, root_entries = [''notes.txt''],
      stat_failures = [(''package.json'', EACCES)], package_json = None,
      requirements_txt = None\<rparr>) \<inter> set (map fst package_files @ common_files) = {} \<and>
   analyze_repository \<lparr>path_exists = True, path_failure = None, root_entries = [''notes.txt''],
      stat_failures = [(''package.json'', EACCES)], package_json = None,
      requirements_txt = None\<rparr> = Inl (OSError EACCES)"
  by (simp add: analyze_repository_def exists_path_def exists_entry_def package_files_def
      common_files_def)

text \<open>
  C7, amended: for every existing directory that holds none of the marker file names
  (those of the probe table and the common files) and on which every \<open>exists()\<close> call
  answers, \<open>analyze_repository\<close> returns a profile with no language, no entry point,
  \<open>is_web_app = False\<close> and \<open>default_port = 3000\<close>; it does not raise.
\<close>

theorem analyze_repository_unrecognized:
  assumes "probes_answer repo"
    and "\<forall>f \<in> set (map fst package_files @ common_files). f \<notin> set (root_entries repo)"
  shows "\<exists>a out. analyze_repository repo = Inr (a, out) \<and>
     languages a = [] \<and> entry_points a = [] \<and> \<not> is_web_app a \<and> default_port a = 3000"
proof -
  from assms have n: "\<forall>f \<in> set (map fst package_files @ common_files). \<not> file_exists repo f"
    using file_exists_answers by blast
  then have p: "\<forall>e \<in> set package_files. \<not> file_exists repo (fst e)"
    and c: "\<forall>f \<in> set common_files. \<not> file_exists repo f"
    by auto
  have "analyze_repository repo = Inr (initial_analysis, [])"
    by (simp add: analyze_repository_Inr [OF assms(1)] foldl_probe_absent [OF p]
        foldl_mark_absent [OF c])
  then show ?thesis by (simp add: initial_analysis_def)
qed

theorem analyze_repository_unrecognized_witness:
  "\<exists>a out. analyze_repository \<lparr>path_exists = True, path_failure = None,
       root_entries = [''notes.txt'', ''src''], stat_failures = [],
       package_json = None, requirements_txt = None\<rparr> = Inr (a, out) \<and>
     languages a = [] \<and> entry_points a = [] \<and> \<not> is_web_app a \<and> default_port a = 3000"
proof -
  let ?r = "\<lparr>path_exists = True, path_failure = None,
       root_entries = [''notes.txt'', ''src''], stat_failures = [],
       package_json = None, requirements_txt = None\<rparr>"
  have e: "probes_answer ?r"
    by (simp add: probes_answer_def exists_path_def package_files_def common_files_def)
  have n: "\<forall>f \<in> set (map fst package_files @ common_files). f \<notin> set (root_entries ?r)"
    by (simp add: package_files_def common_files_def)
  show ?thesis using analyze_repository_unrecognized [OF e n] .
qed



text \<open>
  C9, as stated, fails: for a path that does not exist because its name is too long
  for the file system, \<open>repo_path.exists()\<close> of line 67 raises \<open>OSError\<close> itself, and that
  error, not \<open>FileNotFoundError\<close>, leaves the function.
\<close>

theorem analyze_repository_not_found_counterexample:
  "\<not> path_exists \<lparr>path_exists = False, path_failure = Some ENAMETOOLONG, root_entries = [],
      stat_failures = [], package_json = None, requirements_txt = None\<rparr> \<and>
   analyze_repository \<lparr>path_exists = False, path_failure = Some ENAMETOOLONG, root_entries = [],
      stat_failures = [], package_json = None, requirements_txt = None\<rparr> =
     Inl (OSError ENAMETOOLONG) \<and>
   analyze_repository \<lparr>path_exists = False, path_failure = Some ENAMETOOLONG, root_entries = [],
      stat_failures = [], package_json = None, requirements_txt = None\<rparr> \<noteq>
     Inl FileNotFoundError"
  by (simp add: analyze_repository_def exists_path_def)

text \<open>
  C9, amended: \<open>analyze_repository\<close> raises \<open>FileNotFoundError\<close> exactly when
  \<open>repo_path.exists()\<close> answers \<open>False\<close>, that is when the path does not exist and the
  existence check itself does not fail; when the check raises an \<open>OSError\<close>, that error
  leaves the function instead. No profile is produced for a path that does not exist,
  and for an existing directory \<open>FileNotFoundError\<close> is never raised.
\<close>

theorem analyze_repository_not_found_iff:
  "(analyze_repository repo = Inl FileNotFoundError) =
     (\<not> path_exists repo \<and> path_failure repo = None) \<and>
   (\<forall>f. path_failure repo = Some f \<longrightarrow> analyze_repository repo = Inl (OSError f)) \<and>
   (\<not> path_exists repo \<longrightarrow> profile_of (analyze_repository repo) = None) \<and>
   (path_exists repo \<longrightarrow> analyze_repository repo \<noteq> Inl FileNotFoundError)"
proof -
  have loops: "analyze_repository repo \<noteq> Inl FileNotFoundError" if "exists_path repo = Inr True"
  proof
    assume a: "analyze_repository repo = Inl FileNotFoundError"
    show False
    proof (cases "probe_loop repo (initial_analysis, []) package_files")
      case (Inl e)
      with a that have "e = FileNotFoundError" by (simp add: analyze_repository_def)
      with Inl probe_loop_Inl show False by blast
    next
      case (Inr st)
      obtain a1 out where st: "st = (a1, out)" by (cases st)
      show False
      proof (cases "mark_loop repo a1 common_files")
        case (Inl e)
        with a that Inr st have "e = FileNotFoundError" by (simp add: analyze_repository_def)
        with Inl mark_loop_Inl show False by blast
      next
        case (Inr a2)
        with a that \<open>probe_loop repo (initial_analysis, []) package_files = Inr st\<close> st
        show False by (simp add: analyze_repository_def)
      qed
    qed
  qed
  have 1: "(analyze_repository repo = Inl FileNotFoundError) =
     (\<not> path_exists repo \<and> path_failure repo = None)"
  proof (cases "exists_path repo")
    case (Inl e)
    then show ?thesis
      by (auto simp: analyze_repository_def exists_path_def split: option.splits)
  next
    case (Inr b)
    show ?thesis
    proof (cases b)
      case True
      with Inr loops have "analyze_repository repo \<noteq> Inl FileNotFoundError" by simp
      moreover from Inr True have "path_exists repo"
        by (auto simp: exists_path_def split: option.splits)
      ultimately show ?thesis by simp
    next
      case False
      with Inr show ?thesis
        by (auto simp: analyze_repository_def exists_path_def split: option.splits)
    qed
  qed
  have 2: "\<forall>f. path_failure repo = Some f \<longrightarrow> analyze_repository repo = Inl (OSError f)"
    by (simp add: analyze_repository_def exists_path_def)
  have 3: "\<not> path_exists repo \<longrightarrow> profile_of (analyze_repository repo) = None"
    by (auto simp: analyze_repository_def exists_path_def profile_of_def split: option.splits)
  from 1 have 4: "path_exists repo \<longrightarrow> analyze_repository repo \<noteq> Inl FileNotFoundError"
    by simp
  from 1 2 3 4 show ?thesis by blast
qed

theorem analyze_repository_not_found_iff_witness:
  "analyze_repository \<lparr>path_exists = False, path_failure = None, root_entries = [],
      stat_failures = [], package_json = None, requirements_txt = None\<rparr> =
     Inl FileNotFoundError \<and>
   analyze_repository \<lparr>path_exists = False, path_failure = Some EACCES, root_entries = [],
      stat_failures = [], package_json = None, requirements_txt = None\<rparr> =
     Inl (OSError EACCES) \<and>
   profile_of (analyze_repository \<lparr>path_exists = False, path_failure = None, root_entries = [],
      stat_failures = [], package_json = None, requirements_txt = None\<rparr>) = None \<and>
   analyze_repository \<lparr>path_exists = True, path_failure = None, root_entries = [],
      stat_failures = [], package_json = None, requirements_txt = None\<rparr> \<noteq>
     Inl FileNotFoundError"
  using analyze_repository_not_found_iff
      [of "\<lparr>path_exists = False, path_failure = None, root_entries = [],
      stat_failures = [], package_json = None, requirements_txt = None\<rparr>"]
    analyze_repository_not_found_iff
      [of "\<lparr>path_exists = False, path_failure = Some EACCES, root_entries = [],
      stat_failures = [], package_json = None, requirements_txt = None\<rparr>"]
    analyze_repository_not_found_iff
      [of "\<lparr>path_exists = True, path_failure = None, root_entries = [],
      stat_failures = [], package_json = None, requirements_txt = None\<rparr>"]
  by (simp add: profile_of_def)



end
